theory Spec2Isabelle
  imports Complex_Main
begin

section \<open>The smart proxy of \<^verbatim>\<open>watchdog/proxy.py\<close>\<close>

text \<open>
  The proxy is an asyncio program. Its shared state is the \<^verbatim>\<open>ServerManager\<close> object; everything
  else it touches (the clock, the Docker command line, the backend's HTTP endpoints, the
  event loop's timers) is the environment. The environment is modelled by oracles: the
  \<open>k\<close>-th call of one kind gets the \<open>k\<close>-th answer of that kind, so every run of the real
  program is the run of the model under some oracle. Every call leaves an event in a trace.

  \<^verbatim>\<open>time.monotonic()\<close> is a float of seconds in the source and a rational here; the time an
  operation takes is a natural number of milliseconds, so the clock never runs backwards.
\<close>

subsection \<open>Exceptions and outcomes\<close>

type_synonym seconds = rat

datatype exn =
    TimeoutException string  \<comment> \<open>\<^verbatim>\<open>httpx.TimeoutException\<close> and its subclasses\<close>
  | Exception string         \<comment> \<open>every other subclass of \<^verbatim>\<open>Exception\<close>\<close>
  | CancelledError           \<comment> \<open>\<^verbatim>\<open>asyncio.CancelledError\<close>: a \<^verbatim>\<open>BaseException\<close>, not an \<^verbatim>\<open>Exception\<close>\<close>

fun isinstance_Exception :: "exn \<Rightarrow> bool" where
  "isinstance_Exception (TimeoutException _) = True"
| "isinstance_Exception (Exception _) = True"
| "isinstance_Exception CancelledError = False"

fun isinstance_TimeoutException :: "exn \<Rightarrow> bool" where
  "isinstance_TimeoutException (TimeoutException _) = True"
| "isinstance_TimeoutException _ = False"

fun str_exn :: "exn \<Rightarrow> string" where
  "str_exn (TimeoutException msg) = msg"
| "str_exn (Exception msg) = msg"
| "str_exn CancelledError = []"

datatype 'a attempt = Returned 'a | Raised exn

subsection \<open>Strings\<close>

text \<open>
  \<^verbatim>\<open>str.strip()\<close> and \<^verbatim>\<open>str.lower()\<close> on ASCII text (the output of \<^verbatim>\<open>docker inspect\<close> and the
  values of environment variables).
\<close>

definition isspace :: "char \<Rightarrow> bool" where
  "isspace c = (let n = (of_char c :: nat) in (9 \<le> n \<and> n \<le> 13) \<or> (28 \<le> n \<and> n \<le> 32))"

definition strip :: "string \<Rightarrow> string" where
  "strip s = rev (dropWhile isspace (rev (dropWhile isspace s)))"

definition lower_char :: "char \<Rightarrow> char" where
  "lower_char c =
     (let n = (of_char c :: nat) in
      if 65 \<le> n \<and> n \<le> 90
      then (case c of Char b0 b1 b2 b3 b4 b5 b6 b7 \<Rightarrow> Char b0 b1 b2 b3 b4 True b6 b7)
      else c)"

definition lower :: "string \<Rightarrow> string" where
  "lower s = map lower_char s"

text \<open>The substring test \<^verbatim>\<open>needle in haystack\<close>.\<close>

fun contains :: "string \<Rightarrow> string \<Rightarrow> bool" where
  "contains needle [] = (needle = [])"
| "contains needle (c # cs) = (take (length needle) (c # cs) = needle \<or> contains needle cs)"

subsection \<open>Configuration\<close>

record config =
  VLLM_URL :: string
  PROXY_PORT :: int
  IDLE_TIMEOUT :: int
  CHECK_INTERVAL :: int
  STARTUP_TIMEOUT :: int
  CONTAINER_NAME :: string

text \<open>
  \<^verbatim>\<open>get_env_int\<close>: the variable's value when it is set, not blank and accepted by Python's
  \<^verbatim>\<open>int()\<close> (the parameter \<open>py_int\<close>, \<open>None\<close> for \<^verbatim>\<open>ValueError\<close>), else the default.
\<close>

definition get_env_int :: "(string \<rightharpoonup> string) \<Rightarrow> (string \<Rightarrow> int option) \<Rightarrow> string \<Rightarrow> int \<Rightarrow> int" where
  "get_env_int environ py_int name dflt =
     (let val = (case environ name of None \<Rightarrow> [] | Some v \<Rightarrow> v) in
      if strip val \<noteq> [] then
        (case py_int val of Some n \<Rightarrow> n | None \<Rightarrow> dflt)
      else dflt)"

definition load_config :: "(string \<rightharpoonup> string) \<Rightarrow> (string \<Rightarrow> int option) \<Rightarrow> config" where
  "load_config environ py_int =
     \<lparr> VLLM_URL = (case environ ''VLLM_URL'' of None \<Rightarrow> ''http://hunyuan-ocr:8000'' | Some v \<Rightarrow> v),
       PROXY_PORT = get_env_int environ py_int ''PROXY_PORT'' 8000,
       IDLE_TIMEOUT = get_env_int environ py_int ''IDLE_TIMEOUT'' 300,
       CHECK_INTERVAL = get_env_int environ py_int ''CHECK_INTERVAL'' 30,
       STARTUP_TIMEOUT = get_env_int environ py_int ''STARTUP_TIMEOUT'' 600,
       CONTAINER_NAME = (case environ ''CONTAINER_NAME'' of None \<Rightarrow> ''hunyuan-ocr'' | Some v \<Rightarrow> v) \<rparr>"

subsection \<open>Requests and responses\<close>

type_synonym headers = "(string \<times> string) list"
  \<comment> \<open>header lines in the order received, or the items of a Python \<^verbatim>\<open>dict\<close> in insertion order\<close>

record request =
  request_method :: string
  path :: string
  query :: string
  request_headers :: headers  \<comment> \<open>the lines of \<^verbatim>\<open>request.headers\<close>; a name may repeat\<close>
  body :: string

record backend_request =
  br_method :: string
  br_url :: string
  br_headers :: headers
  br_content :: string

record backend_response =
  status_code :: nat
  response_headers :: headers       \<comment> \<open>the lines of \<^verbatim>\<open>response.headers\<close>; a name may repeat\<close>
  aread :: "string attempt"         \<comment> \<open>what \<^verbatim>\<open>await response.aread()\<close> gives\<close>
  aclose :: "unit attempt"          \<comment> \<open>what \<^verbatim>\<open>await response.aclose()\<close> gives\<close>
  aiter_bytes :: "string list"      \<comment> \<open>the chunks of \<^verbatim>\<open>response.aiter_bytes()\<close>\<close>

datatype response =
    Response string nat headers "string option"
      \<comment> \<open>content, status code, headers, media type\<close>
  | StreamingResponse "string list" nat headers "string option"

record completed_process =
  returncode :: int
  stdout :: string
  stderr :: string

subsection \<open>The environment\<close>

datatype action =
    DockerInspect
  | DockerStart
  | DockerStop
  | HealthGet seconds   \<comment> \<open>\<^verbatim>\<open>client.get(f"{VLLM_URL}/health", timeout=...)\<close>, with its timeout\<close>
  | Sleep seconds
  | Send backend_request

fun is_inspect :: "action \<Rightarrow> bool" where
  "is_inspect DockerInspect = True" | "is_inspect _ = False"

fun is_start :: "action \<Rightarrow> bool" where
  "is_start DockerStart = True" | "is_start _ = False"

fun is_stop :: "action \<Rightarrow> bool" where
  "is_stop DockerStop = True" | "is_stop _ = False"

fun is_probe :: "action \<Rightarrow> bool" where
  "is_probe (HealthGet _) = True" | "is_probe _ = False"

fun is_sleep :: "action \<Rightarrow> bool" where
  "is_sleep (Sleep _) = True" | "is_sleep _ = False"

fun is_send :: "action \<Rightarrow> bool" where
  "is_send (Send _) = True" | "is_send _ = False"

record world =
  clock :: seconds                       \<comment> \<open>the reading of \<^verbatim>\<open>time.monotonic()\<close>\<close>
  trace :: "(seconds \<times> action) list"     \<comment> \<open>the calls made so far, each with the time of the call\<close>

text \<open>
  The oracles: for the \<open>k\<close>-th call of a kind, how many milliseconds it takes and what it
  gives. For a sleep the milliseconds are the time spent beyond the requested delay (when it
  completes) or before the exception (when it is interrupted).
\<close>

record env =
  docker_inspect :: "nat \<Rightarrow> nat \<times> completed_process attempt"
  docker_start :: "nat \<Rightarrow> nat \<times> completed_process attempt"
  docker_stop :: "nat \<Rightarrow> nat \<times> completed_process attempt"
  health_get :: "nat \<Rightarrow> nat \<times> nat attempt"   \<comment> \<open>the status code of \<^verbatim>\<open>GET /health\<close>\<close>
  sleep_wake :: "nat \<Rightarrow> nat \<times> unit attempt"
  backend_send :: "nat \<Rightarrow> nat \<times> backend_response attempt"

definition issued :: "(action \<Rightarrow> bool) \<Rightarrow> world \<Rightarrow> nat" where
  "issued p w = length (filter (\<lambda>e. p (snd e)) (trace w))"

definition emit :: "action \<Rightarrow> world \<Rightarrow> world" where
  "emit a w = w\<lparr>trace := trace w @ [(clock w, a)]\<rparr>"

definition elapse :: "nat \<Rightarrow> world \<Rightarrow> world" where
  "elapse ms w = w\<lparr>clock := clock w + of_nat ms / 1000\<rparr>"

text \<open>
  \<^verbatim>\<open>await asyncio.sleep(delay)\<close>: when it completes, at least \<open>delay\<close> seconds have passed (none
  for a delay that is not positive).
\<close>

definition sleep :: "env \<Rightarrow> seconds \<Rightarrow> world \<Rightarrow> (exn + unit) \<times> world" where
  "sleep ev delay w =
     (case sleep_wake ev (issued is_sleep w) of (ms, r) \<Rightarrow>
        (case r of
           Returned _ \<Rightarrow> (Inr (), elapse ms ((emit (Sleep delay) w)\<lparr>clock := clock w + max 0 delay\<rparr>))
         | Raised e \<Rightarrow> (Inl e, elapse ms (emit (Sleep delay) w))))"

subsection \<open>ServerManager\<close>

record manager =
  last_activity_time :: seconds
  starting :: bool   \<comment> \<open>\<^verbatim>\<open>self._starting\<close>\<close>
  healthy :: bool    \<comment> \<open>\<^verbatim>\<open>self._healthy\<close>\<close>

definition init :: "world \<Rightarrow> manager" where
  "init w = \<lparr> last_activity_time = clock w, starting = False, healthy = False \<rparr>"

definition record_activity :: "world \<Rightarrow> manager \<Rightarrow> manager" where
  "record_activity w m = m\<lparr>last_activity_time := clock w\<rparr>"

definition get_idle_seconds :: "world \<Rightarrow> manager \<Rightarrow> seconds" where
  "get_idle_seconds w m = clock w - last_activity_time m"

definition check_health :: "env \<Rightarrow> world \<Rightarrow> (exn + bool) \<times> world" where
  "check_health ev w =
     (case health_get ev (issued is_probe w) of (ms, r) \<Rightarrow>
        (let w' = elapse ms (emit (HealthGet 5) w) in
         case r of
           Returned code \<Rightarrow> (Inr (code = 200), w')
         | Raised e \<Rightarrow> if isinstance_Exception e then (Inr False, w') else (Inl e, w')))"

definition is_container_running :: "env \<Rightarrow> world \<Rightarrow> (exn + bool) \<times> world" where
  "is_container_running ev w =
     (case docker_inspect ev (issued is_inspect w) of (ms, r) \<Rightarrow>
        (let w' = elapse ms (emit DockerInspect w) in
         case r of
           Returned result \<Rightarrow> (Inr (lower (strip (stdout result)) = ''true''), w')
         | Raised e \<Rightarrow> if isinstance_Exception e then (Inr False, w') else (Inl e, w')))"

definition start_container :: "env \<Rightarrow> world \<Rightarrow> (exn + bool) \<times> world" where
  "start_container ev w =
     (case docker_start ev (issued is_start w) of (ms, r) \<Rightarrow>
        (let w' = elapse ms (emit DockerStart w) in
         case r of
           Returned result \<Rightarrow> (if returncode result = 0 then (Inr True, w') else (Inr False, w'))
         | Raised e \<Rightarrow> if isinstance_Exception e then (Inr False, w') else (Inl e, w')))"

definition stop_container :: "env \<Rightarrow> manager \<times> world \<Rightarrow> (exn + bool) \<times> manager \<times> world" where
  "stop_container ev mw =
     (case mw of (m, w) \<Rightarrow>
      case docker_stop ev (issued is_stop w) of (ms, r) \<Rightarrow>
        (let w' = elapse ms (emit DockerStop w) in
         case r of
           Returned result \<Rightarrow>
             (if returncode result = 0 then (Inr True, m\<lparr>healthy := False\<rparr>, w')
              else (Inr False, m, w'))
         | Raised e \<Rightarrow> if isinstance_Exception e then (Inr False, m, w') else (Inl e, m, w')))"

subsection \<open>The readiness protocol\<close>

lemma clock_check_health: "clock w \<le> clock (snd (check_health ev w))"
  by (auto simp: check_health_def elapse_def emit_def Let_def split: prod.splits attempt.splits)

lemma clock_sleep: "sleep ev d w = (Inr u, w') \<Longrightarrow> clock w + max 0 d \<le> clock w'"
  by (auto simp: sleep_def elapse_def emit_def split: prod.splits attempt.splits)

text \<open>
  The \<^verbatim>\<open>while\<close> loop of \<^verbatim>\<open>ensure_server_ready\<close>, entered with \<open>start_time\<close> read. The calls of
  \<^verbatim>\<open>log\<close> and the counter \<^verbatim>\<open>check_count\<close>, which only they read, are left out. An exception
  leaves the loop as \<open>Inl\<close>.
\<close>

function health_poll :: "config \<Rightarrow> env \<Rightarrow> seconds \<Rightarrow> manager \<times> world \<Rightarrow> (exn + bool) \<times> manager \<times> world" where
  "health_poll cfg ev start_time (m, w) =
     (if clock w - start_time < of_int (STARTUP_TIMEOUT cfg) then
        (case check_health ev w of
           (Inl e, w1) \<Rightarrow> (Inl e, m, w1)
         | (Inr ok, w1) \<Rightarrow>
             if ok then (Inr True, record_activity w1 (m\<lparr>healthy := True\<rparr>), w1)
             else
               (let wait_time = (if clock w1 - start_time < 30 then 2 else 5) in
                case sleep ev wait_time w1 of
                  (Inl e, w2) \<Rightarrow> (Inl e, m, w2)
                | (Inr _, w2) \<Rightarrow> health_poll cfg ev start_time (m, w2)))
      else (Inr False, m, w))"
  by pat_completeness auto
termination
proof (relation "measure (\<lambda>(cfg, ev, st, m, w). nat \<lceil>of_int (STARTUP_TIMEOUT cfg) - (clock w - st)\<rceil>)", goal_cases)
  case 1
  show ?case by simp
next
  case (2 cfg ev st m w x y ok wt u w2)
  have a: "clock w \<le> clock y"
    using clock_check_health[of w ev] 2(2)[symmetric] by simp
  have b: "clock y + max 0 wt \<le> clock w2"
    using clock_sleep[of ev wt y] 2(6)[symmetric] 2(7) by simp
  have c: "2 \<le> wt"
    using 2(5) by simp
  from a b c have "clock w + 2 \<le> clock w2"
    by simp
  with 2(1) show ?case
    by (simp add: ceiling_less_iff less_ceiling_iff) linarith
qed

declare health_poll.simps [simp del]

text \<open>The body of the \<^verbatim>\<open>try\<close> statement of \<^verbatim>\<open>ensure_server_ready\<close>.\<close>

definition ensure_server_ready_try :: "config \<Rightarrow> env \<Rightarrow> manager \<times> world \<Rightarrow> (exn + bool) \<times> manager \<times> world" where
  "ensure_server_ready_try cfg ev mw =
     (case mw of (m, w) \<Rightarrow>
      case is_container_running ev w of
        (Inl e, w1) \<Rightarrow> (Inl e, m, w1)
      | (Inr running, w1) \<Rightarrow>
          if \<not> running then
            (case start_container ev w1 of
               (Inl e, w2) \<Rightarrow> (Inl e, m, w2)
             | (Inr started, w2) \<Rightarrow>
                 if \<not> started then (Inr False, m, w2)
                 else health_poll cfg ev (clock w2) (m, w2))
          else health_poll cfg ev (clock w1) (m, w1))"

text \<open>
  \<^verbatim>\<open>ensure_server_ready\<close>. The whole body runs under \<^verbatim>\<open>async with self._lock\<close>, so the bodies of
  two calls never overlap: concurrent callers run one after the other, in the order in which
  they get the lock. The \<^verbatim>\<open>finally\<close> clause runs on every way out of the \<^verbatim>\<open>try\<close> statement.
\<close>

definition ensure_server_ready :: "config \<Rightarrow> env \<Rightarrow> manager \<times> world \<Rightarrow> (exn + bool) \<times> manager \<times> world" where
  "ensure_server_ready cfg ev mw =
     (case mw of (m, w) \<Rightarrow>
      case (if healthy m then check_health ev w else (Inr False, w)) of
        (Inl e, w1) \<Rightarrow> (Inl e, m, w1)
      | (Inr quick, w1) \<Rightarrow>
          if quick then (Inr True, m, w1)
          else
            (case ensure_server_ready_try cfg ev (m\<lparr>healthy := False, starting := True\<rparr>, w1) of
               (r, m2, w2) \<Rightarrow> (r, m2\<lparr>starting := False\<rparr>, w2)))"

definition is_starting :: "manager \<Rightarrow> bool" where
  "is_starting m = starting m"

subsection \<open>The idle monitor\<close>

text \<open>
  One round of the \<^verbatim>\<open>while True\<close> loop of \<^verbatim>\<open>idle_monitor\<close> after its sleep: it has no
  \<^verbatim>\<open>await\<close> that gives control away (\<^verbatim>\<open>stop_container\<close> runs \<^verbatim>\<open>subprocess.run\<close>, which blocks),
  so no other task runs between its tests and the stop command.
\<close>

definition idle_check :: "config \<Rightarrow> env \<Rightarrow> manager \<times> world \<Rightarrow> (exn + unit) \<times> manager \<times> world" where
  "idle_check cfg ev mw =
     (case mw of (m, w) \<Rightarrow>
      if is_starting m then (Inr (), m, w)
      else if \<not> healthy m then (Inr (), m, w)
      else
        (let idle_seconds = get_idle_seconds w m;
             remaining = of_int (IDLE_TIMEOUT cfg) - idle_seconds
         in if remaining \<le> 0 then
              (case stop_container ev (m, w) of
                 (Inl e, m', w') \<Rightarrow> (Inl e, m', w')
               | (Inr _, m', w') \<Rightarrow> (Inr (), m', w'))
            else (Inr (), m, w)))"

definition idle_monitor_round :: "config \<Rightarrow> env \<Rightarrow> manager \<times> world \<Rightarrow> (exn + unit) \<times> manager \<times> world" where
  "idle_monitor_round cfg ev mw =
     (case mw of (m, w) \<Rightarrow>
      case sleep ev (of_int (CHECK_INTERVAL cfg)) w of
        (Inl e, w1) \<Rightarrow> (Inl e, m, w1)
      | (Inr _, w1) \<Rightarrow> idle_check cfg ev (m, w1))"

text \<open>
  The loop never returns; \<open>idle_monitor n\<close> is its first \<open>n\<close> rounds: \<open>None\<close> when it is
  still running after them, \<open>Some e\<close> when the exception \<open>e\<close> ended it.
\<close>

fun idle_monitor :: "nat \<Rightarrow> config \<Rightarrow> env \<Rightarrow> manager \<times> world \<Rightarrow> exn option \<times> manager \<times> world" where
  "idle_monitor 0 cfg ev mw = (None, mw)"
| "idle_monitor (Suc n) cfg ev mw =
     (case idle_monitor_round cfg ev mw of
        (Inl e, mw') \<Rightarrow> (Some e, mw')
      | (Inr _, mw') \<Rightarrow> idle_monitor n cfg ev mw')"

subsection \<open>The request handler\<close>

text \<open>
  \<^verbatim>\<open>request.headers\<close> (a \<^verbatim>\<open>Headers\<close> object of Starlette) and \<^verbatim>\<open>response.headers\<close> (one of httpx)
  hold the header lines in the order received, the names in lower case; a name may repeat.
  For a name that occurs, \<^verbatim>\<open>h[name]\<close> is in Starlette the value of the first line of that name,
  and in httpx the values of all lines of that name joined by a comma and a blank.
\<close>

definition getitem_first :: "headers \<Rightarrow> string \<Rightarrow> string" where
  "getitem_first h k = (case map_of h k of Some v \<Rightarrow> v | None \<Rightarrow> [])"

fun join :: "string \<Rightarrow> string list \<Rightarrow> string" where
  "join sep [] = []"
| "join sep [x] = x"
| "join sep (x # y # ys) = x @ sep @ join sep (y # ys)"

definition getitem_joined :: "headers \<Rightarrow> string \<Rightarrow> string" where
  "getitem_joined h k = join '', '' (map snd (filter (\<lambda>kv. fst kv = k) h))"

text \<open>
  \<^verbatim>\<open>dict(h)\<close> for such an object: Python stores \<^verbatim>\<open>h[k]\<close> under each \<open>k\<close> of \<^verbatim>\<open>h.keys()\<close>, so the
  dictionary has one entry for each name, at the place where the name occurs first.
\<close>

definition dict :: "(headers \<Rightarrow> string \<Rightarrow> string) \<Rightarrow> headers \<Rightarrow> headers" where
  "dict getitem h = map (\<lambda>k. (k, getitem h k)) (rev (remdups (rev (map fst h))))"

text \<open>\<^verbatim>\<open>d.pop(h, None)\<close> on a dictionary, and \<^verbatim>\<open>response.headers.get(k, default)\<close>.\<close>

definition pop :: "string \<Rightarrow> headers \<Rightarrow> headers" where
  "pop h d = filter (\<lambda>kv. fst kv \<noteq> h) d"

definition get :: "headers \<Rightarrow> string \<Rightarrow> string \<Rightarrow> string" where
  "get h k dflt = (if k \<in> fst ` set h then getitem_joined h k else dflt)"

text \<open>The two \<^verbatim>\<open>except\<close> clauses of \<^verbatim>\<open>proxy\<close>, tried in the order of the source.\<close>

definition proxy_except :: \<open>exn \<Rightarrow> manager \<times> world \<Rightarrow> (exn + response) \<times> manager \<times> world\<close> where
  \<open>proxy_except e mw =
     (case mw of (m, w) \<Rightarrow>
      if isinstance_TimeoutException e then
        (Inr (Response ''{"error": "Backend request timeout"}'' 504 [] (Some ''application/json'')), m, w)
      else if isinstance_Exception e then
        (Inr (Response (''{"error": "Backend request failed: '' @ str_exn e @ ''"}'') 502 []
                (Some ''application/json'')),
         m\<lparr>healthy := False\<rparr>, w)
      else (Inl e, m, w))\<close>

text \<open>
  The backend request of \<^verbatim>\<open>proxy\<close>: the URL, the body, the headers without the hop-by-hop
  ones, and \<^verbatim>\<open>build_request\<close>.
\<close>

definition hop_by_hop_request :: "string list" where
  "hop_by_hop_request = [''host'', ''connection'', ''keep-alive'', ''transfer-encoding'', ''upgrade'']"

definition hop_by_hop_response :: "string list" where
  "hop_by_hop_response = [''connection'', ''keep-alive'', ''transfer-encoding'']"

definition build_request :: "config \<Rightarrow> request \<Rightarrow> backend_request" where
  "build_request cfg request =
     (let url = VLLM_URL cfg @ ''/'' @ path request;
          url = (if query request \<noteq> [] then url @ ''?'' @ query request else url);
          body = body request;
          headers = fold pop hop_by_hop_request (dict getitem_first (request_headers request))
      in \<lparr> br_method = request_method request, br_url = url, br_headers = headers, br_content = body \<rparr>)"

definition is_streaming :: "backend_response \<Rightarrow> bool" where
  "is_streaming response =
     (let content_type = get (response_headers response) ''content-type'' []
      in contains ''text/event-stream'' content_type
         \<or> contains ''chunked'' (get (response_headers response) ''transfer-encoding'' []))"

text \<open>
  The part of \<^verbatim>\<open>proxy\<close> after the readiness check: the backend request is built and sent, and
  the response is built from the backend's. A streaming response is returned with the chunk
  iterator unread: the chunks are relayed after the handler has returned.
\<close>

definition proxy_forward :: "config \<Rightarrow> env \<Rightarrow> request \<Rightarrow> manager \<times> world \<Rightarrow> (exn + response) \<times> manager \<times> world" where
  "proxy_forward cfg ev request mw =
     (case mw of (m, w) \<Rightarrow>
      case backend_send ev (issued is_send w) of (ms, r) \<Rightarrow>
        (let w1 = elapse ms (emit (Send (build_request cfg request)) w) in
         case r of
           Raised e \<Rightarrow> proxy_except e (m, w1)
         | Returned response \<Rightarrow>
             (let content_type = get (response_headers response) ''content-type'' [];
                  headers = fold pop hop_by_hop_response (dict getitem_joined (response_headers response))
              in if is_streaming response then
                   (Inr (StreamingResponse (aiter_bytes response) (status_code response)
                           headers (Some content_type)), m, w1)
                 else
                   (case aread response of
                      Raised e \<Rightarrow> proxy_except e (m, w1)
                    | Returned content \<Rightarrow>
                        (case aclose response of
                           Raised e \<Rightarrow> proxy_except e (m, w1)
                         | Returned _ \<Rightarrow>
                             (Inr (Response content (status_code response) headers None),
                              m, w1))))))"

definition proxy :: \<open>config \<Rightarrow> env \<Rightarrow> request \<Rightarrow> manager \<times> world \<Rightarrow> (exn + response) \<times> manager \<times> world\<close> where
  \<open>proxy cfg ev request mw =
     (case mw of (m, w) \<Rightarrow>
      case ensure_server_ready cfg ev (record_activity w m, w) of
        (Inl e, m1, w1) \<Rightarrow> (Inl e, m1, w1)
      | (Inr ready, m1, w1) \<Rightarrow>
          if \<not> ready then
            (Inr (Response ''{"error": "Backend server failed to start"}'' 503 []
                    (Some ''application/json'')), m1, w1)
          else proxy_forward cfg ev request (m1, w1))\<close>

fun status_of :: "response \<Rightarrow> nat" where
  "status_of (Response _ code _ _) = code"
| "status_of (StreamingResponse _ code _ _) = code"


subsection \<open>Concrete environments\<close>

text \<open>
  A mock environment in the manner of the scenarios of the specification: every Docker command
  of one kind gives the same outcome, the \<open>k\<close>-th health probe gives \<open>probe k\<close>, every forwarded
  request gives \<open>send\<close>, and no sleep is interrupted.
\<close>

definition process :: "int \<Rightarrow> string \<Rightarrow> completed_process" where
  "process rc out = \<lparr> returncode = rc, stdout = out, stderr = [] \<rparr>"

definition scenario :: "completed_process attempt \<Rightarrow> completed_process attempt \<Rightarrow> completed_process attempt
    \<Rightarrow> (nat \<Rightarrow> nat attempt) \<Rightarrow> backend_response attempt \<Rightarrow> env" where
  "scenario inspect start stop probe send =
     \<lparr> docker_inspect = (\<lambda>k. (50, inspect)),
       docker_start = (\<lambda>k. (200, start)),
       docker_stop = (\<lambda>k. (900, stop)),
       health_get = (\<lambda>k. (100, probe k)),
       sleep_wake = (\<lambda>k. (1, Returned ())),
       backend_send = (\<lambda>k. (300, send)) \<rparr>"

definition boot :: world where
  "boot = \<lparr> clock = 0, trace = [] \<rparr>"

definition default_config :: config where
  "default_config = load_config Map.empty (\<lambda>s. None)"

definition flaky_probe :: "nat \<Rightarrow> nat attempt" where
  "flaky_probe k = (if k = 0 then Raised (TimeoutException ''ReadTimeout'')
                    else if k = 1 then Returned 503 else Returned 200)"

text \<open>The container is stopped and \<^verbatim>\<open>docker start\<close> fails with exit status 1.\<close>

definition stopped_start_fails :: env where
  "stopped_start_fails =
     scenario (Returned (process 0 ''false\<newline>'')) (Returned (process 1 [])) (Returned (process 0 []))
       (\<lambda>k. Raised (Exception ''ConnectError'')) (Raised (Exception ''ConnectError''))"

text \<open>The container is running and healthy, and \<^verbatim>\<open>docker stop\<close> succeeds.\<close>

definition stop_succeeds :: env where
  "stop_succeeds =
     scenario (Returned (process 0 ''true\<newline>'')) (Returned (process 0 [])) (Returned (process 0 []))
       (\<lambda>k. Returned 200) (Raised (Exception ''ConnectError''))"

text \<open>A manager that is healthy and has seen no activity since time 0.\<close>

definition idle_since_boot :: manager where
  "idle_since_boot = \<lparr> last_activity_time = 0, starting = False, healthy = True \<rparr>"

text \<open>The backend is up, and a forwarded request runs into a read timeout.\<close>

definition backend_times_out :: env where
  "backend_times_out =
     scenario (Returned (process 0 ''true\<newline>'')) (Returned (process 0 [])) (Returned (process 0 []))
       (\<lambda>k. Returned 200) (Raised (TimeoutException ''ReadTimeout''))"

text \<open>The backend is up, and the connection of a forwarded request is refused.\<close>

definition backend_refuses :: env where
  "backend_refuses =
     scenario (Returned (process 0 ''true\<newline>'')) (Returned (process 0 [])) (Returned (process 0 []))
       (\<lambda>k. Returned 200) (Raised (Exception ''ConnectError''))"

text \<open>A request of a client, and a manager whose backend is cached as healthy.\<close>

definition chat_request :: request where
  "chat_request =
     \<lparr> request_method = ''POST'', path = ''v1/chat/completions'', query = ''stream=false'',
       request_headers = [(''host'', ''proxy:8000''), (''content-type'', ''application/json''),
                          (''connection'', ''keep-alive''), (''accept'', ''*/*'')],
       body = ''{}'' \<rparr>"

definition warm :: manager where
  "warm = \<lparr> last_activity_time = 0, starting = False, healthy = True \<rparr>"



text \<open>
  What the polling loop may leave in the trace when it was entered at \<open>start_time\<close>: probes,
  each issued while the elapsed time is below \<^verbatim>\<open>STARTUP_TIMEOUT\<close>, each but the last followed by
  a sleep of 2 seconds when the elapsed time at that moment is below 30 seconds and of 5
  seconds otherwise.
\<close>

fun poll_trace :: "config \<Rightarrow> seconds \<Rightarrow> (seconds \<times> action) list \<Rightarrow> bool" where
  "poll_trace cfg start_time [] = True"
| "poll_trace cfg start_time [(t, a)] =
     (is_probe a \<and> t - start_time < of_int (STARTUP_TIMEOUT cfg))"
| "poll_trace cfg start_time ((t, a) # (t', a') # es) =
     (is_probe a \<and> t - start_time < of_int (STARTUP_TIMEOUT cfg)
      \<and> (case a' of Sleep wait_time \<Rightarrow> wait_time = (if t' - start_time < 30 then 2 else 5)
                   | _ \<Rightarrow> False)
      \<and> poll_trace cfg start_time es)"

text \<open>The container runs, but the health endpoint always answers with status 500.\<close>

definition always_500 :: env where
  "always_500 =
     scenario (Returned (process 0 ''true\<newline>'')) (Returned (process 0 [])) (Returned (process 0 []))
       (\<lambda>k. Returned 500) (Raised (Exception ''ConnectError''))"

text \<open>
  A health probe that does not succeed: another status than 200, or an \<^verbatim>\<open>Exception\<close>. A call
  that is not interrupted: it returns, or it raises an \<^verbatim>\<open>Exception\<close>.
\<close>

fun probe_fails :: "nat attempt \<Rightarrow> bool" where
  "probe_fails (Returned code) = (code \<noteq> 200)"
| "probe_fails (Raised e) = isinstance_Exception e"

fun uninterrupted :: "'a attempt \<Rightarrow> bool" where
  "uninterrupted (Returned _) = True"
| "uninterrupted (Raised e) = isinstance_Exception e"

text \<open>The container runs and the health endpoint recovers at the third probe.\<close>

definition flaky :: env where
  "flaky =
     scenario (Returned (process 0 ''true\<newline>'')) (Returned (process 0 [])) (Returned (process 0 []))
       flaky_probe (Raised (Exception ''ConnectError''))"

text \<open>The task that awaits the health probe is cancelled.\<close>

definition probe_cancelled :: env where
  "probe_cancelled =
     scenario (Returned (process 0 ''true\<newline>'')) (Returned (process 0 [])) (Returned (process 0 []))
       (\<lambda>k. Raised CancelledError) (Raised (Exception ''ConnectError''))"




section \<open>Properties\<close>

subsection \<open>The health probe and the idle tracker\<close>

text \<open>
  C8: the probe of \<^verbatim>\<open>check_health\<close> is cancelled: \<^verbatim>\<open>await client.get(...)\<close> raises
  \<^verbatim>\<open>asyncio.CancelledError\<close>, which is not an \<^verbatim>\<open>Exception\<close>, and \<^verbatim>\<open>check_health\<close> raises it to its
  caller.
\<close>

theorem check_health_raises_counterexample:
  "snd (health_get probe_cancelled 0) = Raised CancelledError
   \<and> fst (check_health probe_cancelled boot) = Inl CancelledError"
  by (simp add: check_health_def probe_cancelled_def scenario_def boot_def issued_def Let_def)

text \<open>
  C8, amended: \<^verbatim>\<open>check_health\<close> issues one probe, with a timeout of 5 seconds. It gives true
  exactly when the probe answered with status 200; it gives false, without raising, when the
  probe answered with another status or raised an \<^verbatim>\<open>Exception\<close> (a network error, or the timeout
  of the client); an exception of the probe that is not an \<^verbatim>\<open>Exception\<close> is raised to the
  caller.
\<close>

theorem check_health_outcome:
  "fst (check_health ev w)
     = (case snd (health_get ev (issued is_probe w)) of
          Returned code \<Rightarrow> Inr (code = 200)
        | Raised e \<Rightarrow> if isinstance_Exception e then Inr False else Inl e)
   \<and> trace (snd (check_health ev w)) = trace w @ [(clock w, HealthGet 5)]"
  by (simp add: check_health_def Let_def emit_def elapse_def split: prod.splits attempt.splits)

theorem check_health_outcome_witness:
  "fst (check_health flaky boot) = Inr False
   \<and> fst (check_health flaky (emit (HealthGet 5) boot)) = Inr False
   \<and> fst (check_health flaky (emit (HealthGet 5) (emit (HealthGet 5) boot))) = Inr True
   \<and> trace (snd (check_health flaky boot)) = [(0, HealthGet 5)]"
  using check_health_outcome [of flaky boot] check_health_outcome [of flaky "emit (HealthGet 5) boot"]
    check_health_outcome [of flaky "emit (HealthGet 5) (emit (HealthGet 5) boot)"]
  by (simp add: flaky_def scenario_def flaky_probe_def boot_def issued_def emit_def)

text \<open>
  C9: \<^verbatim>\<open>get_idle_seconds\<close> read at the clock value at which \<^verbatim>\<open>record_activity\<close> ran is zero, and
  read at any clock value it is that value minus the one \<^verbatim>\<open>record_activity\<close> stored.
\<close>

theorem idle_seconds_after_record_activity:
  "get_idle_seconds w (record_activity w m) = 0
   \<and> get_idle_seconds w' (record_activity w m) = clock w' - clock w"
  by (simp add: get_idle_seconds_def record_activity_def)

subsection \<open>The readiness protocol\<close>

text \<open>
  An induction rule for the polling loop, one case for each way an iteration can go: the
  timeout has passed, the probe raises, the probe succeeds, the sleep raises, or the loop
  goes round again.
\<close>

lemma health_poll_induct [case_names timeout probe_raised healthy sleep_raised again]:
  assumes timeout: "\<And>w. \<not> clock w - st < of_int (STARTUP_TIMEOUT cfg) \<Longrightarrow> P w (Inr False, m, w)"
    and probe_raised: "\<And>w e w1. clock w - st < of_int (STARTUP_TIMEOUT cfg) \<Longrightarrow>
          check_health ev w = (Inl e, w1) \<Longrightarrow> P w (Inl e, m, w1)"
    and healthy: "\<And>w w1. clock w - st < of_int (STARTUP_TIMEOUT cfg) \<Longrightarrow>
          check_health ev w = (Inr True, w1) \<Longrightarrow>
          P w (Inr True, record_activity w1 (m\<lparr>healthy := True\<rparr>), w1)"
    and sleep_raised: "\<And>w w1 e w2. clock w - st < of_int (STARTUP_TIMEOUT cfg) \<Longrightarrow>
          check_health ev w = (Inr False, w1) \<Longrightarrow>
          sleep ev (if clock w1 - st < 30 then 2 else 5) w1 = (Inl e, w2) \<Longrightarrow> P w (Inl e, m, w2)"
    and again: "\<And>w w1 w2. clock w - st < of_int (STARTUP_TIMEOUT cfg) \<Longrightarrow>
          check_health ev w = (Inr False, w1) \<Longrightarrow>
          sleep ev (if clock w1 - st < 30 then 2 else 5) w1 = (Inr (), w2) \<Longrightarrow>
          P w2 (health_poll cfg ev st (m, w2)) \<Longrightarrow> P w (health_poll cfg ev st (m, w2))"
  shows "P w (health_poll cfg ev st (m, w))"
  using assms
proof (induction cfg ev st "(m, w)" arbitrary: w rule: health_poll.induct)
  case (1 cfg ev st w)
  note timeout = "1.prems"(1) and probe_raised = "1.prems"(2) and healthy = "1.prems"(3)
    and sleep_raised = "1.prems"(4) and again = "1.prems"(5)
  show ?case
  proof (cases "clock w - st < of_int (STARTUP_TIMEOUT cfg)")
    case False
    with timeout[of w] show ?thesis by (subst health_poll.simps) simp
  next
    case True
    obtain x w1 where ch: "check_health ev w = (x, w1)" by (cases "check_health ev w")
    show ?thesis
    proof (cases x)
      case (Inl e)
      with probe_raised[OF True, of e w1] True ch show ?thesis by (subst health_poll.simps) simp
    next
      case (Inr ok)
      show ?thesis
      proof (cases ok)
        case True': True
        with healthy[OF True, of w1] True ch Inr show ?thesis by (subst health_poll.simps) simp
      next
        case False
        obtain y w2 where sl: "sleep ev (if clock w1 - st < 30 then 2 else 5) w1 = (y, w2)"
          by (cases "sleep ev (if clock w1 - st < 30 then 2 else 5) w1")
        show ?thesis
        proof (cases y)
          case (Inl e)
          with sleep_raised[OF True, of w1 e w2] True ch \<open>x = Inr ok\<close> False sl show ?thesis
            by (subst health_poll.simps) (simp add: Let_def)
        next
          case (Inr u)
          have eq: "health_poll cfg ev st (m, w) = health_poll cfg ev st (m, w2)"
            using True ch \<open>x = Inr ok\<close> False sl Inr
            by (subst health_poll.simps) (simp add: Let_def)
          have "P w2 (health_poll cfg ev st (m, w2))"
            by (rule "1.hyps"[OF True ch[symmetric] \<open>x = Inr ok\<close> False refl sl[symmetric] Inr])
              (fact "1.prems")+
          with again[OF True, of w1 w2] ch \<open>x = Inr ok\<close> False sl Inr eq show ?thesis
            by simp
        qed
      qed
    qed
  qed
qed

lemma health_poll_starting:
  "starting (fst (snd (health_poll cfg ev st (m, w)))) = starting m"
  by (induction w rule: health_poll_induct[where m = m and cfg = cfg and ev = ev and st = st])
     (simp_all add: record_activity_def)


lemma try_starting:
  "starting (fst (snd (ensure_server_ready_try cfg ev (m, w)))) = starting m"
  by (simp add: ensure_server_ready_try_def health_poll_starting split: prod.splits sum.splits)



lemma running_false [simp]: "lower (strip ''false\<newline>'') \<noteq> ''true''"
  by (simp add: lower_def strip_def isspace_def lower_char_def)


text \<open>
  C10: \<^verbatim>\<open>_starting\<close> is false after \<^verbatim>\<open>ensure_server_ready\<close> whenever it was false before the call,
  and after every call that took the slow path, whatever the outcome (true, false or an
  exception); inside the \<^verbatim>\<open>try\<close> statement it stays true.
\<close>

theorem starting_flag_reset:
  "(\<not> starting m \<longrightarrow> \<not> starting (fst (snd (ensure_server_ready cfg ev (m, w)))))
   \<and> (fst (if healthy m then check_health ev w else (Inr False, w)) = Inr False
        \<longrightarrow> \<not> starting (fst (snd (ensure_server_ready cfg ev (m, w)))))
   \<and> starting (fst (snd (ensure_server_ready_try cfg ev (m\<lparr>healthy := False, starting := True\<rparr>, w))))"
  by (auto simp: ensure_server_ready_def try_starting split: prod.splits sum.splits if_splits)

theorem starting_flag_reset_witness:
  "\<not> starting (init boot)
   \<and> fst (if healthy (init boot) then check_health stopped_start_fails boot else (Inr False, boot)) = Inr False
   \<and> \<not> starting (fst (snd (ensure_server_ready default_config stopped_start_fails (init boot, boot))))"
  using starting_flag_reset [of "init boot" default_config stopped_start_fails boot]
  by (simp add: init_def)

text \<open>
  C4: on the slow path, when the container is not running and the start command fails,
  \<^verbatim>\<open>ensure_server_ready\<close> returns false in the state reached right after the start command:
  the only calls made since the quick check are the inspection and the start, no probe and
  no sleep.
\<close>

theorem start_failure_returns_false:
  assumes "(if healthy m then check_health ev w else (Inr False, w)) = (Inr False, w1)"
    and "is_container_running ev w1 = (Inr False, w2)"
    and "start_container ev w2 = (Inr False, w3)"
  shows "ensure_server_ready cfg ev (m, w) = (Inr False, m\<lparr>healthy := False, starting := False\<rparr>, w3)
    \<and> trace w3 = trace w1 @ [(clock w1, DockerInspect), (clock w2, DockerStart)]"
proof -
  have "trace w2 = trace w1 @ [(clock w1, DockerInspect)]"
    using assms(2)
    by (auto simp: is_container_running_def Let_def emit_def elapse_def
        split: prod.splits attempt.splits if_splits)
  moreover have "trace w3 = trace w2 @ [(clock w2, DockerStart)]"
    using assms(3)
    by (auto simp: start_container_def Let_def emit_def elapse_def
        split: prod.splits attempt.splits if_splits)
  moreover have "ensure_server_ready cfg ev (m, w) = (Inr False, m\<lparr>healthy := False, starting := False\<rparr>, w3)"
    using assms by (simp add: ensure_server_ready_def ensure_server_ready_try_def)
  ultimately show ?thesis by simp
qed

theorem start_failure_returns_false_witness:
  "ensure_server_ready default_config stopped_start_fails (init boot, boot)
     = (Inr False, init boot, \<lparr> clock = 1/4, trace = [(0, DockerInspect), (1/20, DockerStart)] \<rparr>)"
  using start_failure_returns_false [of "init boot" stopped_start_fails boot boot
      "\<lparr> clock = 1/20, trace = [(0, DockerInspect)] \<rparr>"
      "\<lparr> clock = 1/4, trace = [(0, DockerInspect), (1/20, DockerStart)] \<rparr>" default_config]
  by (simp add: init_def boot_def stopped_start_fails_def scenario_def process_def
      is_container_running_def start_container_def issued_def emit_def elapse_def)

subsection \<open>The idle monitor\<close>

lemma issued_emit: "issued p (emit a w) = issued p w + (if p a then 1 else 0)"
  by (simp add: issued_def emit_def)

lemma issued_elapse [simp]: "issued p (elapse ms w) = issued p w"
  by (simp add: issued_def elapse_def)

lemma issued_clock_update [simp]: "issued p (w\<lparr>clock := c\<rparr>) = issued p w"
  by (simp add: issued_def)

lemma sleep_issued:
  "\<not> p (Sleep d) \<Longrightarrow> issued p (snd (sleep ev d w)) = issued p w"
  by (simp add: sleep_def issued_emit split: prod.splits attempt.splits)

lemma idle_check_not_healthy:
  "\<not> healthy m \<Longrightarrow> idle_check cfg ev (m, w) = (Inr (), m, w)"
  by (simp add: idle_check_def)

lemma idle_monitor_not_healthy:
  "\<not> healthy m \<Longrightarrow>
     \<not> healthy (fst (snd (idle_monitor n cfg ev (m, w))))
     \<and> issued is_stop (snd (snd (idle_monitor n cfg ev (m, w)))) = issued is_stop w"
proof (induction n arbitrary: w)
  case 0
  then show ?case by simp
next
  case (Suc n)
  obtain r w1 where sl: "sleep ev (of_int (CHECK_INTERVAL cfg)) w = (r, w1)"
    by (cases "sleep ev (of_int (CHECK_INTERVAL cfg)) w")
  have w1: "issued is_stop w1 = issued is_stop w"
    using sleep_issued[of is_stop "of_int (CHECK_INTERVAL cfg)" ev w] sl by simp
  show ?case
  proof (cases r)
    case (Inl e)
    with sl Suc.prems w1 show ?thesis by (simp add: idle_monitor_round_def)
  next
    case (Inr u)
    with sl Suc.prems have "idle_monitor (Suc n) cfg ev (m, w) = idle_monitor n cfg ev (m, w1)"
      by (simp add: idle_monitor_round_def idle_check_not_healthy)
    with Suc.IH[OF Suc.prems, of w1] w1 show ?thesis by simp
  qed
qed

lemma stop_container_trace:
  "trace (snd (snd (stop_container ev (m, w)))) = trace w @ [(clock w, DockerStop)]"
  by (simp add: stop_container_def Let_def emit_def elapse_def split: prod.splits attempt.splits)

lemma idle_check_stops:
  assumes "healthy m" and "\<not> is_starting m" and "of_int (IDLE_TIMEOUT cfg) \<le> get_idle_seconds w m"
  shows "trace (snd (snd (idle_check cfg ev (m, w)))) = trace w @ [(clock w, DockerStop)]"
  using assms stop_container_trace[of ev m w]
  by (cases "stop_container ev (m, w)") (auto simp: idle_check_def Let_def split: sum.splits)

lemma idle_check_clears:
  assumes "healthy m" and "\<not> is_starting m" and "of_int (IDLE_TIMEOUT cfg) \<le> get_idle_seconds w m"
    and "snd (docker_stop ev (issued is_stop w)) = Returned result" and "returncode result = 0"
  shows "fst (idle_check cfg ev (m, w)) = Inr () \<and> \<not> healthy (fst (snd (idle_check cfg ev (m, w))))"
proof -
  obtain ms where "docker_stop ev (issued is_stop w) = (ms, Returned result)"
    using assms(4) by (cases "docker_stop ev (issued is_stop w)") simp
  with assms show ?thesis
    by (simp add: idle_check_def stop_container_def Let_def)
qed

lemma issued_trace_snoc:
  "trace w' = trace w @ [(t, a)] \<Longrightarrow> issued p w' = issued p w + (if p a then 1 else 0)"
  by (simp add: issued_def)

text \<open>
  C5: a round of the monitor loop wakes from its sleep and finds the backend healthy, no
  startup in progress and the idle time at least \<^verbatim>\<open>IDLE_TIMEOUT\<close>. That round issues exactly
  one stop command, at the moment it woke, and nothing else. When the command succeeds, the
  round clears the cached healthy state, and the loop, run for that round and any number of
  further rounds, has issued exactly that one stop command and still holds the state not
  healthy: only the polling loop of \<^verbatim>\<open>ensure_server_ready\<close> makes it healthy again.
\<close>

theorem idle_monitor_stops_once:
  assumes "sleep ev (of_int (CHECK_INTERVAL cfg)) w = (Inr (), w1)"
    and "healthy m" and "\<not> is_starting m"
    and "of_int (IDLE_TIMEOUT cfg) \<le> get_idle_seconds w1 m"
  shows "trace (snd (snd (idle_monitor_round cfg ev (m, w)))) = trace w1 @ [(clock w1, DockerStop)]
    \<and> (snd (docker_stop ev (issued is_stop w)) = Returned result \<and> returncode result = 0 \<longrightarrow>
          fst (idle_monitor_round cfg ev (m, w)) = Inr ()
          \<and> \<not> healthy (fst (snd (idle_monitor_round cfg ev (m, w))))
          \<and> fst (idle_monitor (Suc n) cfg ev (m, w)) = fst (idle_monitor n cfg ev (snd (idle_monitor_round cfg ev (m, w))))
          \<and> issued is_stop (snd (snd (idle_monitor (Suc n) cfg ev (m, w)))) = issued is_stop w + 1
          \<and> \<not> healthy (fst (snd (idle_monitor (Suc n) cfg ev (m, w)))))"
proof (intro conjI impI)
  have r: "idle_monitor_round cfg ev (m, w) = idle_check cfg ev (m, w1)"
    using assms(1) by (simp add: idle_monitor_round_def)
  have s: "issued is_stop w1 = issued is_stop w"
    using sleep_issued[of is_stop "of_int (CHECK_INTERVAL cfg)" ev w] assms(1) by simp
  show t: "trace (snd (snd (idle_monitor_round cfg ev (m, w)))) = trace w1 @ [(clock w1, DockerStop)]"
    using r idle_check_stops[OF assms(2-4)] by simp
  assume "snd (docker_stop ev (issued is_stop w)) = Returned result \<and> returncode result = 0"
  hence c: "fst (idle_check cfg ev (m, w1)) = Inr () \<and> \<not> healthy (fst (snd (idle_check cfg ev (m, w1))))"
    using idle_check_clears[OF assms(2-4), of ev result] s by simp
  obtain m2 w2 where i: "idle_check cfg ev (m, w1) = (Inr (), m2, w2)"
    using c by (cases "idle_check cfg ev (m, w1)") auto
  have m2: "\<not> healthy m2"
    using c i by simp
  have w2: "issued is_stop w2 = issued is_stop w + 1"
    using issued_trace_snoc[of w2 w1 "clock w1" DockerStop is_stop] t r i s by simp
  have l: "idle_monitor (Suc n) cfg ev (m, w) = idle_monitor n cfg ev (m2, w2)"
    using r i by simp
  show "fst (idle_monitor_round cfg ev (m, w)) = Inr ()"
    using r i by simp
  show "\<not> healthy (fst (snd (idle_monitor_round cfg ev (m, w))))"
    using r i m2 by simp
  show "fst (idle_monitor (Suc n) cfg ev (m, w)) = fst (idle_monitor n cfg ev (snd (idle_monitor_round cfg ev (m, w))))"
    using l r i by simp
  show "issued is_stop (snd (snd (idle_monitor (Suc n) cfg ev (m, w)))) = issued is_stop w + 1"
    using l idle_monitor_not_healthy[OF m2, of n cfg ev w2] w2 by simp
  show "\<not> healthy (fst (snd (idle_monitor (Suc n) cfg ev (m, w))))"
    using l idle_monitor_not_healthy[OF m2, of n cfg ev w2] by simp
qed

lemma default_idle: "IDLE_TIMEOUT default_config = 300 \<and> CHECK_INTERVAL default_config = 30"
  by (simp add: default_config_def load_config_def get_env_int_def)

theorem idle_monitor_stops_once_witness:
  "trace (snd (snd (idle_monitor_round default_config stop_succeeds (idle_since_boot, boot\<lparr>clock := 280\<rparr>))))
     = [(280, Sleep 30), (310001/1000, DockerStop)]
   \<and> \<not> healthy (fst (snd (idle_monitor_round default_config stop_succeeds (idle_since_boot, boot\<lparr>clock := 280\<rparr>))))
   \<and> issued is_stop (snd (snd (idle_monitor 4 default_config stop_succeeds
        (idle_since_boot, boot\<lparr>clock := 280\<rparr>)))) = 1
   \<and> \<not> healthy (fst (snd (idle_monitor 4 default_config stop_succeeds (idle_since_boot, boot\<lparr>clock := 280\<rparr>))))"
  using idle_monitor_stops_once [of stop_succeeds default_config "boot\<lparr>clock := 280\<rparr>"
      "\<lparr> clock = 310001/1000, trace = [(280, Sleep 30)] \<rparr>" idle_since_boot "process 0 []" 3]
  by (simp add: default_idle sleep_def idle_since_boot_def boot_def get_idle_seconds_def
      is_starting_def stop_succeeds_def scenario_def process_def issued_def emit_def elapse_def
      del: idle_monitor.simps)

subsection \<open>The request handler\<close>

text \<open>
  C3, as stated, fails: a forwarded request that runs into \<^verbatim>\<open>httpx.TimeoutException\<close> is answered
  with status 504 and the cached state stays healthy.
\<close>

theorem timeout_keeps_healthy_counterexample:
  \<open>fst (proxy default_config backend_times_out chat_request (warm, boot))
     = Inr (Response ''{"error": "Backend request timeout"}'' 504 [] (Some ''application/json''))
   \<and> healthy (fst (snd (proxy default_config backend_times_out chat_request (warm, boot))))\<close>
  by (simp add: proxy_def ensure_server_ready_def check_health_def proxy_forward_def proxy_except_def
      backend_times_out_def scenario_def warm_def boot_def record_activity_def issued_def emit_def
      elapse_def Let_def)

text \<open>
  C3, amended: when sending the backend request, or reading or closing a buffered response,
  raises an \<^verbatim>\<open>Exception\<close>, the handler answers with status 504 and leaves the manager as it is
  for \<^verbatim>\<open>httpx.TimeoutException\<close>, and answers with status 502 and marks the backend as not
  healthy for every other \<^verbatim>\<open>Exception\<close>.
\<close>

theorem relay_failure_response:
  assumes "snd (backend_send ev (issued is_send w)) = Raised e
      \<or> (\<exists>resp. snd (backend_send ev (issued is_send w)) = Returned resp \<and> \<not> is_streaming resp
            \<and> (aread resp = Raised e \<or> (\<exists>c. aread resp = Returned c \<and> aclose resp = Raised e)))"
    and "isinstance_Exception e"
  shows "map_sum id status_of (fst (proxy_forward cfg ev req (m, w)))
           = Inr (if isinstance_TimeoutException e then 504 else 502)
    \<and> fst (snd (proxy_forward cfg ev req (m, w)))
           = (if isinstance_TimeoutException e then m else m\<lparr>healthy := False\<rparr>)"
  using assms
  by (auto simp: proxy_forward_def proxy_except_def Let_def split: prod.splits)

theorem relay_failure_response_witness:
  "map_sum id status_of (fst (proxy_forward default_config backend_refuses chat_request (warm, boot)))
     = Inr 502
   \<and> fst (snd (proxy_forward default_config backend_refuses chat_request (warm, boot)))
     = warm\<lparr>healthy := False\<rparr>"
  using relay_failure_response [of backend_refuses boot "Exception ''ConnectError''"
      default_config chat_request warm]
  by (simp add: backend_refuses_def scenario_def)










subsection \<open>The polling loop\<close>

lemma check_health_trace:
  "trace (snd (check_health ev w)) = trace w @ [(clock w, HealthGet 5)]"
  by (simp add: check_health_def Let_def emit_def elapse_def split: prod.splits attempt.splits)

lemma sleep_trace:
  "trace (snd (sleep ev d w)) = trace w @ [(clock w, Sleep d)]"
  by (simp add: sleep_def emit_def elapse_def split: prod.splits attempt.splits)

lemma health_poll_trace:
  "\<exists>es. trace (snd (snd (health_poll cfg ev st (m, w)))) = trace w @ es \<and> poll_trace cfg st es"
proof (induction w rule: health_poll_induct[where m = m and cfg = cfg and ev = ev and st = st])
  case (timeout w)
  then show ?case by simp
next
  case (probe_raised w e w1)
  then show ?case using check_health_trace[of ev w] by simp
next
  case (healthy w w1)
  then show ?case using check_health_trace[of ev w] by simp
next
  case (sleep_raised w w1 e w2)
  then show ?case
    using check_health_trace[of ev w] sleep_trace[of ev "if clock w1 - st < 30 then 2 else 5" w1]
    by simp
next
  case (again w w1 w2)
  from again(4) obtain es where es: "trace (snd (snd (health_poll cfg ev st (m, w2)))) = trace w2 @ es"
    "poll_trace cfg st es" by blast
  have "trace w2 = trace w @ [(clock w, HealthGet 5), (clock w1, Sleep (if clock w1 - st < 30 then 2 else 5))]"
    using again(2,3) check_health_trace[of ev w] sleep_trace[of ev "if clock w1 - st < 30 then 2 else 5" w1]
    by simp
  with es again(1) show ?case by simp
qed

text \<open>
  C6: the calls the polling loop makes are health probes, each issued while the time elapsed
  since \<open>start_time\<close> is below \<^verbatim>\<open>STARTUP_TIMEOUT\<close>, with a sleep between two probes that is 2
  seconds long when the elapsed time after the failed probe is below 30 seconds and 5 seconds
  long otherwise; and \<^verbatim>\<open>STARTUP_TIMEOUT\<close> is 600 when the environment does not set it.
\<close>

theorem polling_backoff:
  "poll_trace cfg start_time
     (drop (length (trace w)) (trace (snd (snd (health_poll cfg ev start_time (m, w))))))
   \<and> take (length (trace w)) (trace (snd (snd (health_poll cfg ev start_time (m, w))))) = trace w
   \<and> STARTUP_TIMEOUT default_config = 600"
proof -
  obtain es where "trace (snd (snd (health_poll cfg ev start_time (m, w)))) = trace w @ es"
    "poll_trace cfg start_time es"
    using health_poll_trace by blast
  moreover have "STARTUP_TIMEOUT default_config = 600"
    by (simp add: default_config_def load_config_def get_env_int_def strip_def)
  ultimately show ?thesis by simp
qed

lemma running_true [simp]: "lower (strip ''true\<newline>'') = ''true''"
  by (simp add: lower_def strip_def isspace_def lower_char_def)

lemma near_thirty:
  "health_poll (default_config\<lparr>STARTUP_TIMEOUT := 35\<rparr>) always_500 0 (init boot, boot\<lparr>clock := 27\<rparr>)
     = (Inr False, init boot,
        \<lparr> clock = 36303/1000,
          trace = [(27, HealthGet 5), (271/10, Sleep 2), (29101/1000, HealthGet 5), (29201/1000, Sleep 2),
                   (31202/1000, HealthGet 5), (31302/1000, Sleep 5)] \<rparr>)"
  by (simp add: health_poll.simps check_health_def sleep_def always_500_def scenario_def boot_def
      init_def issued_def emit_def elapse_def Let_def)

theorem polling_backoff_witness:
  "trace (snd (snd (health_poll (default_config\<lparr>STARTUP_TIMEOUT := 35\<rparr>) always_500 0
      (init boot, boot\<lparr>clock := 27\<rparr>))))
     = [(27, HealthGet 5), (271/10, Sleep 2), (29101/1000, HealthGet 5), (29201/1000, Sleep 2),
        (31202/1000, HealthGet 5), (31302/1000, Sleep 5)]
   \<and> poll_trace (default_config\<lparr>STARTUP_TIMEOUT := 35\<rparr>) 0
        [(27, HealthGet 5), (271/10, Sleep 2), (29101/1000, HealthGet 5), (29201/1000, Sleep 2),
         (31202/1000, HealthGet 5), (31302/1000, Sleep 5)]"
  using polling_backoff [of "default_config\<lparr>STARTUP_TIMEOUT := 35\<rparr>" 0 "boot\<lparr>clock := 27\<rparr>"
      always_500 "init boot"]
  by (simp add: near_thirty)

subsection \<open>A backend that never becomes healthy\<close>

lemma check_health_issued:
  "issued p (snd (check_health ev w)) = issued p w + (if p (HealthGet 5) then 1 else 0)"
  by (simp add: check_health_def Let_def issued_emit split: prod.splits attempt.splits)

lemma sleep_issued_probe [simp]: "issued is_probe (snd (sleep ev d w)) = issued is_probe w"
  by (simp add: sleep_issued)

lemma sleep_issued_sleep [simp]: "issued is_sleep (snd (sleep ev d w)) = issued is_sleep w + 1"
  by (simp add: sleep_def issued_emit split: prod.splits attempt.splits)

lemma check_health_fails:
  assumes "probe_fails (snd (health_get ev (issued is_probe w)))"
  shows "fst (check_health ev w) = Inr False"
proof -
  obtain ms r where h: "health_get ev (issued is_probe w) = (ms, r)"
    by (cases "health_get ev (issued is_probe w)")
  with assms show ?thesis
    by (cases r) (simp_all add: check_health_def Let_def)
qed

lemma sleep_returns:
  assumes "snd (sleep_wake ev (issued is_sleep w)) = Returned ()"
  shows "fst (sleep ev d w) = Inr ()"
proof -
  obtain ms r where "sleep_wake ev (issued is_sleep w) = (ms, r)"
    by (cases "sleep_wake ev (issued is_sleep w)")
  with assms show ?thesis
    by (simp add: sleep_def)
qed

lemma health_poll_times_out:
  "(\<forall>k \<ge> issued is_probe w. probe_fails (snd (health_get ev k))) \<longrightarrow>
   (\<forall>k \<ge> issued is_sleep w. snd (sleep_wake ev k) = Returned ()) \<longrightarrow>
     fst (health_poll cfg ev st (m, w)) = Inr False
     \<and> fst (snd (health_poll cfg ev st (m, w))) = m
     \<and> issued is_send (snd (snd (health_poll cfg ev st (m, w)))) = issued is_send w"
proof (induction w rule: health_poll_induct[where m = m and cfg = cfg and ev = ev and st = st])
  case (timeout w)
  then show ?case by simp
next
  case (probe_raised w e w1)
  then show ?case using check_health_fails[of ev w] by auto
next
  case (healthy w w1)
  then show ?case using check_health_fails[of ev w] by auto
next
  case (sleep_raised w w1 e w2)
  have "issued is_sleep w1 = issued is_sleep w"
    using sleep_raised(2) check_health_issued[of is_sleep ev w] by simp
  then show ?case
    using sleep_raised(3) sleep_returns[of ev w1 "if clock w1 - st < 30 then 2 else 5"] by auto
next
  case (again w w1 w2)
  have w1: "issued p w1 = issued p w + (if p (HealthGet 5) then 1 else 0)" for p
    using again(2) check_health_issued[of p ev w] by simp
  have p: "issued is_probe w2 = issued is_probe w + 1"
    using again(3) sleep_issued_probe[of ev "if clock w1 - st < 30 then 2 else 5" w1] w1[of is_probe]
    by simp
  have s: "issued is_sleep w2 = issued is_sleep w + 1"
    using again(3) sleep_issued_sleep[of ev "if clock w1 - st < 30 then 2 else 5" w1] w1[of is_sleep]
    by simp
  have d: "issued is_send w2 = issued is_send w"
    using again(3) sleep_issued[of is_send "if clock w1 - st < 30 then 2 else 5" ev w1] w1[of is_send]
    by simp
  show ?case
  proof (intro impI)
    assume a: "\<forall>k\<ge>issued is_probe w. probe_fails (snd (health_get ev k))"
      and b: "\<forall>k\<ge>issued is_sleep w. snd (sleep_wake ev k) = Returned ()"
    from a p have a': "\<forall>k\<ge>issued is_probe w2. probe_fails (snd (health_get ev k))" by simp
    from b s have b': "\<forall>k\<ge>issued is_sleep w2. snd (sleep_wake ev k) = Returned ()" by simp
    from again(4) a' b' d show
      "fst (health_poll cfg ev st (m, w2)) = Inr False
       \<and> fst (snd (health_poll cfg ev st (m, w2))) = m
       \<and> issued is_send (snd (snd (health_poll cfg ev st (m, w2)))) = issued is_send w"
      by simp
  qed
qed

lemma is_container_running_issued:
  "issued p (snd (is_container_running ev w)) = issued p w + (if p DockerInspect then 1 else 0)"
  by (simp add: is_container_running_def Let_def issued_emit split: prod.splits attempt.splits)

lemma start_container_issued:
  "issued p (snd (start_container ev w)) = issued p w + (if p DockerStart then 1 else 0)"
  by (simp add: start_container_def Let_def issued_emit split: prod.splits attempt.splits)

lemma is_container_running_returns:
  assumes "uninterrupted (snd (docker_inspect ev (issued is_inspect w)))"
  shows "\<exists>b. fst (is_container_running ev w) = Inr b"
proof -
  obtain ms r where "docker_inspect ev (issued is_inspect w) = (ms, r)"
    by (cases "docker_inspect ev (issued is_inspect w)")
  with assms show ?thesis
    by (cases r) (auto simp: is_container_running_def Let_def)
qed

lemma start_container_returns:
  assumes "uninterrupted (snd (docker_start ev (issued is_start w)))"
  shows "\<exists>b. fst (start_container ev w) = Inr b"
proof -
  obtain ms r where "docker_start ev (issued is_start w) = (ms, r)"
    by (cases "docker_start ev (issued is_start w)")
  with assms show ?thesis
    by (cases r) (auto simp: start_container_def Let_def)
qed

lemma try_times_out:
  assumes probes: "\<forall>k \<ge> issued is_probe w. probe_fails (snd (health_get ev k))"
    and sleeps: "\<forall>k \<ge> issued is_sleep w. snd (sleep_wake ev k) = Returned ()"
    and inspect: "uninterrupted (snd (docker_inspect ev (issued is_inspect w)))"
    and start: "uninterrupted (snd (docker_start ev (issued is_start w)))"
  shows "fst (ensure_server_ready_try cfg ev (m, w)) = Inr False
    \<and> fst (snd (ensure_server_ready_try cfg ev (m, w))) = m
    \<and> issued is_send (snd (snd (ensure_server_ready_try cfg ev (m, w)))) = issued is_send w"
proof -
  obtain running w1 where r: "is_container_running ev w = (Inr running, w1)"
    using is_container_running_returns[OF inspect] by (cases "is_container_running ev w") auto
  have w1: "issued p w1 = issued p w + (if p DockerInspect then 1 else 0)" for p
    using is_container_running_issued[of p ev w] r by simp
  show ?thesis
  proof (cases running)
    case True
    have "ensure_server_ready_try cfg ev (m, w) = health_poll cfg ev (clock w1) (m, w1)"
      using r True by (simp add: ensure_server_ready_try_def)
    moreover have "\<forall>k \<ge> issued is_probe w1. probe_fails (snd (health_get ev k))"
      using probes w1[of is_probe] by simp
    moreover have "\<forall>k \<ge> issued is_sleep w1. snd (sleep_wake ev k) = Returned ()"
      using sleeps w1[of is_sleep] by simp
    ultimately show ?thesis
      using health_poll_times_out[of w1 ev cfg "clock w1" m] w1[of is_send] by simp
  next
    case False
    have "uninterrupted (snd (docker_start ev (issued is_start w1)))"
      using start w1[of is_start] by simp
    then obtain started w2 where s: "start_container ev w1 = (Inr started, w2)"
      using start_container_returns[of ev w1] by (cases "start_container ev w1") auto
    have w2: "issued p w2 = issued p w1 + (if p DockerStart then 1 else 0)" for p
      using start_container_issued[of p ev w1] s by simp
    show ?thesis
    proof (cases started)
      case False
      with r \<open>\<not> running\<close> s w1[of is_send] w2[of is_send] show ?thesis
        by (simp add: ensure_server_ready_try_def)
    next
      case True
      have "ensure_server_ready_try cfg ev (m, w) = health_poll cfg ev (clock w2) (m, w2)"
        using r \<open>\<not> running\<close> s True by (simp add: ensure_server_ready_try_def)
      moreover have "\<forall>k \<ge> issued is_probe w2. probe_fails (snd (health_get ev k))"
        using probes w1[of is_probe] w2[of is_probe] by simp
      moreover have "\<forall>k \<ge> issued is_sleep w2. snd (sleep_wake ev k) = Returned ()"
        using sleeps w1[of is_sleep] w2[of is_sleep] by simp
      ultimately show ?thesis
        using health_poll_times_out[of w2 ev cfg "clock w2" m] w1[of is_send] w2[of is_send] by simp
    qed
  qed
qed

lemma ensure_server_ready_times_out:
  assumes probes: "\<forall>k \<ge> issued is_probe w. probe_fails (snd (health_get ev k))"
    and sleeps: "\<forall>k \<ge> issued is_sleep w. snd (sleep_wake ev k) = Returned ()"
    and inspect: "uninterrupted (snd (docker_inspect ev (issued is_inspect w)))"
    and start: "uninterrupted (snd (docker_start ev (issued is_start w)))"
  shows "fst (ensure_server_ready cfg ev (m, w)) = Inr False
    \<and> \<not> healthy (fst (snd (ensure_server_ready cfg ev (m, w))))
    \<and> issued is_send (snd (snd (ensure_server_ready cfg ev (m, w)))) = issued is_send w"
proof -
  define w1 where "w1 = (if healthy m then snd (check_health ev w) else w)"
  have q: "(if healthy m then check_health ev w else (Inr False, w)) = (Inr False, w1)"
    using check_health_fails[of ev w] probes
    by (cases "check_health ev w") (auto simp: w1_def)
  have w1: "issued p w1 = issued p w + (if healthy m \<and> p (HealthGet 5) then 1 else 0)" for p
    using check_health_issued[of p ev w] by (simp add: w1_def)
  have "\<forall>k \<ge> issued is_probe w1. probe_fails (snd (health_get ev k))"
    using probes w1[of is_probe] by simp
  moreover have "\<forall>k \<ge> issued is_sleep w1. snd (sleep_wake ev k) = Returned ()"
    using sleeps w1[of is_sleep] by simp
  moreover have "uninterrupted (snd (docker_inspect ev (issued is_inspect w1)))"
    using inspect w1[of is_inspect] by simp
  moreover have "uninterrupted (snd (docker_start ev (issued is_start w1)))"
    using start w1[of is_start] by simp
  ultimately have t: "fst (ensure_server_ready_try cfg ev (m\<lparr>healthy := False, starting := True\<rparr>, w1)) = Inr False
    \<and> fst (snd (ensure_server_ready_try cfg ev (m\<lparr>healthy := False, starting := True\<rparr>, w1)))
        = m\<lparr>healthy := False, starting := True\<rparr>
    \<and> issued is_send (snd (snd (ensure_server_ready_try cfg ev (m\<lparr>healthy := False, starting := True\<rparr>, w1))))
        = issued is_send w1"
    by (rule try_times_out)
  show ?thesis
    using q t w1[of is_send]
    by (cases "ensure_server_ready_try cfg ev (m\<lparr>healthy := False, starting := True\<rparr>, w1)")
       (simp add: ensure_server_ready_def)
qed

text \<open>C2: when every health probe from now on fails (a status other than 200, or an error
  of class Exception), the sleeps of the polling loop return and the two docker commands are not
  interrupted, \<open>ensure_server_ready\<close> returns False, the handler answers 503 with the body
  \<open>{"error": "Backend server failed to start"}\<close>, no request is sent to the backend, and the
  manager is left not healthy. The loop ends because the monotonic clock passes
  \<open>STARTUP_TIMEOUT\<close>: the result is a value of the total function \<open>health_poll\<close>.\<close>

theorem never_healthy_gives_503:
  assumes "\<forall>k \<ge> issued is_probe w. probe_fails (snd (health_get ev k))"
    and "\<forall>k \<ge> issued is_sleep w. snd (sleep_wake ev k) = Returned ()"
    and "uninterrupted (snd (docker_inspect ev (issued is_inspect w)))"
    and "uninterrupted (snd (docker_start ev (issued is_start w)))"
  shows \<open>fst (ensure_server_ready cfg ev (record_activity w m, w)) = Inr False
    \<and> fst (proxy cfg ev req (m, w))
        = Inr (Response ''{"error": "Backend server failed to start"}'' 503 [] (Some ''application/json''))
    \<and> issued is_send (snd (snd (proxy cfg ev req (m, w)))) = issued is_send w
    \<and> \<not> healthy (fst (snd (proxy cfg ev req (m, w))))\<close>
  using ensure_server_ready_times_out[OF assms, of cfg "record_activity w m"]
  by (cases "ensure_server_ready cfg ev (record_activity w m, w)") (simp add: proxy_def)

theorem never_healthy_gives_503_witness:
  \<open>probe_fails (snd (health_get always_500 0))
   \<and> fst (proxy default_config always_500 chat_request (init boot, boot))
        = Inr (Response ''{"error": "Backend server failed to start"}'' 503 [] (Some ''application/json''))
   \<and> issued is_send (snd (snd (proxy default_config always_500 chat_request (init boot, boot)))) = 0\<close>
  using never_healthy_gives_503 [of boot always_500 default_config "init boot" chat_request]
  by (simp add: always_500_def scenario_def boot_def issued_def)

subsection \<open>Callers that compete for the lock\<close>












end
